theory Spec2Isabelle
  imports Main
begin

section \<open>The WebSocket match coordinator of the chat service\<close>

text \<open>
  The coordinator is the module that declares \<^verbatim>\<open>clients\<close>, \<^verbatim>\<open>activeInvites\<close> and
  \<^verbatim>\<open>activeGames\<close> and the handlers \<^verbatim>\<open>handleGameInvite\<close>, \<^verbatim>\<open>handleInviteAccept\<close>,
  \<^verbatim>\<open>handleInviteDecline\<close>, \<^verbatim>\<open>relayPaddleUpdate\<close>, \<^verbatim>\<open>relayGameState\<close> and
  \<^verbatim>\<open>handleGameEnd\<close>. Its three module-level tables are mutable; here every handler
  takes the state and returns the new state together with the frames it wrote to
  sockets, in the order of the \<^verbatim>\<open>client.send\<close> calls.
\<close>

subsection \<open>Data\<close>

text \<open>
  A socket is an object of the runtime; only its identity matters, so it is a number.
  User ids, scores and the paddle position are JavaScript numbers that the coordinator
  only compares and copies; they are integers here. The \<^verbatim>\<open>state\<close> object of a
  \<^verbatim>\<open>game_state\<close> frame is copied unread and is kept as its text.
\<close>

type_synonym socket = nat
type_synonym json = string

record invite =
  id_invite :: string
  fromUserId :: int
  fromUsername :: string
  toUserId :: int
  createdAt :: int

record game =
  id_game :: string
  hostId :: int
  guestId :: int
  dbGameId :: "int option"

text \<open>
  The frames the coordinator writes, one constructor per value of the \<^verbatim>\<open>type\<close> field,
  with the other fields in the order of the object literal in the source.
\<close>

datatype envelope =
    Pong
  | Game_invite_error string
  | Game_invite string int string int
  | Game_invite_sent string int
  | Game_invite_expired string
  | Game_invite_accepted string int int bool
  | Game_invite_declined string
  | Game_paddle_update string int
  | Game_state string json
  | Game_ended string int int int
  | New_message int string int

type_synonym delivery = "socket \<times> envelope"

subsection \<open>The persistence gateway\<close>

text \<open>
  Modelled from the spec: the persistence gateway (the \<^verbatim>\<open>prisma\<close> client imported from
  \<^verbatim>\<open>../lib/prisma.js\<close> and the schema of its \<^verbatim>\<open>game\<close> table are not among the sources).
  The spec gives it two calls, \<^verbatim>\<open>createMatch(hostId, guestId, mode) -> matchId\<close> and
  \<^verbatim>\<open>finalizeMatch(matchId, leftScore, rightScore, winnerId)\<close>, and says that either may
  throw. The table is a map from record ids to rows with the columns the handlers and
  the public API of the games name. A call returns a promise; awaiting a rejected
  promise throws. What the database answers is not decided by the coordinator, so it is
  an argument: for a creation the id the database assigned (or nothing, when the call
  fails), for an update whether the database could be reached. Columns that a creation
  does not write are left unset.
\<close>

record game_row =
  player1Id :: int
  player2Id :: "int option"
  gameMode :: string
  player1Score :: "int option"
  player2Score :: "int option"
  winnerId :: "int option"

type_synonym game_table = "int \<rightharpoonup> game_row"

datatype 'a promise = Rejected | Fulfilled 'a

definition prisma_game_create ::
  "game_table \<Rightarrow> int option \<Rightarrow> int \<Rightarrow> int \<Rightarrow> string \<Rightarrow> (game_table \<times> int) promise" where
  "prisma_game_create tbl assigned p1 p2 mode =
     (case assigned of
        None \<Rightarrow> Rejected
      | Some newId \<Rightarrow>
          Fulfilled
            (tbl(newId \<mapsto> \<lparr>player1Id = p1, player2Id = Some p2, gameMode = mode,
                             player1Score = None, player2Score = None, winnerId = None\<rparr>),
             newId))"

definition prisma_game_update ::
  "game_table \<Rightarrow> bool \<Rightarrow> int \<Rightarrow> int \<Rightarrow> int \<Rightarrow> int \<Rightarrow> game_table promise" where
  "prisma_game_update tbl reachable rowId p1Score p2Score winner =
     (if \<not> reachable then Rejected
      else case tbl rowId of
             None \<Rightarrow> Rejected
           | Some row \<Rightarrow>
               Fulfilled
                 (tbl(rowId \<mapsto> row\<lparr>player1Score := Some p1Score, player2Score := Some p2Score,
                                     winnerId := Some winner\<rparr>)))"

subsection \<open>The state of the module\<close>

text \<open>
  \<^verbatim>\<open>clients\<close> maps a user id to the set of its open sockets; a JavaScript \<^verbatim>\<open>Set\<close> is
  iterated in insertion order and holds no element twice, so it is a list here.
  \<^verbatim>\<open>timers\<close> holds the one-shot timers that \<^verbatim>\<open>setTimeout\<close> has scheduled and that
  have not fired yet, each with the two variables its callback closes over
  (\<^verbatim>\<open>inviteId\<close> and \<^verbatim>\<open>fromUserId\<close>).
\<close>

record coordinator =
  clients :: "int \<rightharpoonup> socket list"
  activeInvites :: "string \<rightharpoonup> invite"
  activeGames :: "string \<rightharpoonup> game"
  timers :: "(string \<times> int) list"
  games_db :: game_table

definition initial :: coordinator where
  "initial = \<lparr>clients = Map.empty, activeInvites = Map.empty, activeGames = Map.empty,
              timers = [], games_db = Map.empty\<rparr>"

subsection \<open>The connection registry\<close>

text \<open>\<^verbatim>\<open>sendToUser\<close>: one frame per open socket of the user, none when the user has no entry.\<close>

definition sendToUser :: "coordinator \<Rightarrow> int \<Rightarrow> envelope \<Rightarrow> delivery list" where
  "sendToUser s userId message =
     (case clients s userId of
        None \<Rightarrow> []
      | Some userClients \<Rightarrow> map (\<lambda>client. (client, message)) userClients)"

text \<open>The registration at the end of the handshake of \<^verbatim>\<open>/ws\<close>.\<close>

definition register :: "coordinator \<Rightarrow> int \<Rightarrow> socket \<Rightarrow> coordinator" where
  "register s userId sock =
     (let userClients = (case clients s userId of None \<Rightarrow> [] | Some cs \<Rightarrow> cs)
      in s\<lparr>clients := (clients s)(userId \<mapsto>
              (if sock \<in> set userClients then userClients else userClients @ [sock]))\<rparr>)"

text \<open>The \<^verbatim>\<open>close\<close> handler of a socket.\<close>

definition unregister :: "coordinator \<Rightarrow> int \<Rightarrow> socket \<Rightarrow> coordinator" where
  "unregister s userId sock =
     (case clients s userId of
        None \<Rightarrow> s
      | Some userClients \<Rightarrow>
          (let rest = removeAll sock userClients
           in if rest = [] then s\<lparr>clients := (clients s)(userId := None)\<rparr>
              else s\<lparr>clients := (clients s)(userId \<mapsto> rest)\<rparr>))"

subsection \<open>Invites\<close>

text \<open>
  \<^verbatim>\<open>handleGameInvite\<close>. \<^verbatim>\<open>inviteId\<close> is what \<^verbatim>\<open>generateId()\<close> returned (a random
  string followed by the clock) and \<^verbatim>\<open>now\<close> what \<^verbatim>\<open>new Date()\<close> returned.
\<close>

definition handleGameInvite ::
  "coordinator \<Rightarrow> int \<Rightarrow> string \<Rightarrow> int \<Rightarrow> string \<Rightarrow> int \<Rightarrow> coordinator \<times> delivery list" where
  "handleGameInvite s fromUser fromName toUser inviteId now =
     (if clients s toUser = None then
        (s, sendToUser s fromUser (Game_invite_error ''User is not online''))
      else
        (let invt = \<lparr>id_invite = inviteId, fromUserId = fromUser, fromUsername = fromName,
                    toUserId = toUser, createdAt = now\<rparr>;
             s1 = s\<lparr>activeInvites := (activeInvites s)(inviteId \<mapsto> invt)\<rparr>;
             out1 = sendToUser s1 toUser (Game_invite inviteId fromUser fromName (createdAt invt));
             out2 = sendToUser s1 fromUser (Game_invite_sent inviteId toUser);
             s2 = s1\<lparr>timers := timers s1 @ [(inviteId, fromUser)]\<rparr>
         in (s2, out1 @ out2)))"

text \<open>The callback that \<^verbatim>\<open>handleGameInvite\<close> hands to \<^verbatim>\<open>setTimeout\<close>, run when the timer fires.\<close>

definition expireInvite :: "coordinator \<Rightarrow> string \<Rightarrow> int \<Rightarrow> coordinator \<times> delivery list" where
  "expireInvite s inviteId fromUser =
     (if activeInvites s inviteId \<noteq> None then
        (s\<lparr>activeInvites := (activeInvites s)(inviteId := None)\<rparr>,
         sendToUser s fromUser (Game_invite_expired inviteId))
      else (s, []))"

text \<open>
  \<^verbatim>\<open>handleInviteAccept\<close>. \<^verbatim>\<open>assigned\<close> is the answer of the database to
  \<^verbatim>\<open>prisma.game.create\<close> and \<^verbatim>\<open>gameId\<close> what \<^verbatim>\<open>generateId()\<close> returned. When the awaited
  call throws, the handler is left at that point: the router catches and logs.
\<close>

definition handleInviteAccept ::
  "coordinator \<Rightarrow> int \<Rightarrow> string \<Rightarrow> int option \<Rightarrow> string \<Rightarrow> coordinator \<times> delivery list" where
  "handleInviteAccept s acceptingUser inviteId assigned gameId =
     (case activeInvites s inviteId of
        None \<Rightarrow> (s, sendToUser s acceptingUser (Game_invite_error ''Invite not found or expired''))
      | Some invt \<Rightarrow>
          if toUserId invt \<noteq> acceptingUser then
            (s, sendToUser s acceptingUser (Game_invite_error ''Invite not found or expired''))
          else
            (let s1 = s\<lparr>activeInvites := (activeInvites s)(inviteId := None)\<rparr>
             in case prisma_game_create (games_db s1) assigned (fromUserId invt) acceptingUser ''online'' of
                  Rejected \<Rightarrow> (s1, [])
                | Fulfilled (tbl, dbId) \<Rightarrow>
                    (let s2 = s1\<lparr>games_db := tbl\<rparr>;
                         s3 = s2\<lparr>activeGames := (activeGames s2)(gameId \<mapsto>
                                 \<lparr>id_game = gameId, hostId = fromUserId invt,
                                  guestId = acceptingUser, dbGameId = Some dbId\<rparr>)\<rparr>;
                         out1 = sendToUser s3 (fromUserId invt)
                                  (Game_invite_accepted gameId dbId acceptingUser True);
                         out2 = sendToUser s3 acceptingUser
                                  (Game_invite_accepted gameId dbId (fromUserId invt) False)
                     in (s3, out1 @ out2))))"

text \<open>\<^verbatim>\<open>handleInviteDecline\<close>.\<close>

definition handleInviteDecline :: "coordinator \<Rightarrow> int \<Rightarrow> string \<Rightarrow> coordinator \<times> delivery list" where
  "handleInviteDecline s decliningUser inviteId =
     (case activeInvites s inviteId of
        None \<Rightarrow> (s, [])
      | Some invt \<Rightarrow>
          if toUserId invt \<noteq> decliningUser then (s, [])
          else (s\<lparr>activeInvites := (activeInvites s)(inviteId := None)\<rparr>,
                sendToUser s (fromUserId invt) (Game_invite_declined inviteId)))"

subsection \<open>Sessions\<close>

text \<open>\<^verbatim>\<open>relayPaddleUpdate\<close>.\<close>

definition relayPaddleUpdate ::
  "coordinator \<Rightarrow> int \<Rightarrow> string \<Rightarrow> int \<Rightarrow> coordinator \<times> delivery list" where
  "relayPaddleUpdate s fromUser gameId paddleY =
     (case activeGames s gameId of
        None \<Rightarrow> (s, [])
      | Some g \<Rightarrow>
          (let targetUserId = (if hostId g = fromUser then guestId g else hostId g)
           in (s, sendToUser s targetUserId (Game_paddle_update gameId paddleY))))"

text \<open>\<^verbatim>\<open>relayGameState\<close>.\<close>

definition relayGameState ::
  "coordinator \<Rightarrow> int \<Rightarrow> string \<Rightarrow> json \<Rightarrow> coordinator \<times> delivery list" where
  "relayGameState s fromUser gameId st =
     (case activeGames s gameId of
        None \<Rightarrow> (s, [])
      | Some g \<Rightarrow>
          if hostId g \<noteq> fromUser then (s, [])
          else (s, sendToUser s (guestId g) (Game_state gameId st)))"

text \<open>
  The test \<^verbatim>\<open>if (game.dbGameId)\<close>: an absent field and the number 0 are both falsy.
\<close>

definition truthy :: "int option \<Rightarrow> int option" where
  "truthy v = (case v of None \<Rightarrow> None | Some n \<Rightarrow> if n = 0 then None else Some n)"

text \<open>The part of \<^verbatim>\<open>handleGameEnd\<close> after the update: both notifications and the removal.\<close>

definition notifyGameEnd ::
  "coordinator \<Rightarrow> game \<Rightarrow> string \<Rightarrow> int \<Rightarrow> int \<Rightarrow> int \<Rightarrow> coordinator \<times> delivery list" where
  "notifyGameEnd s g gameId winner leftScore rightScore =
     (let endMessage = Game_ended gameId winner leftScore rightScore;
          out1 = sendToUser s (hostId g) endMessage;
          out2 = sendToUser s (guestId g) endMessage
      in (s\<lparr>activeGames := (activeGames s)(gameId := None)\<rparr>, out1 @ out2))"

text \<open>
  \<^verbatim>\<open>handleGameEnd\<close>. \<^verbatim>\<open>reachable\<close> is whether the database answers the awaited
  \<^verbatim>\<open>prisma.game.update\<close>; when the call throws, the handler is left at that point.
\<close>

definition handleGameEnd ::
  "coordinator \<Rightarrow> int \<Rightarrow> string \<Rightarrow> int \<Rightarrow> int \<Rightarrow> int \<Rightarrow> bool \<Rightarrow> coordinator \<times> delivery list" where
  "handleGameEnd s fromUser gameId winner leftScore rightScore reachable =
     (case activeGames s gameId of
        None \<Rightarrow> (s, [])
      | Some g \<Rightarrow>
          (case truthy (dbGameId g) of
             None \<Rightarrow> notifyGameEnd s g gameId winner leftScore rightScore
           | Some rowId \<Rightarrow>
               (case prisma_game_update (games_db s) reachable rowId leftScore rightScore winner of
                  Rejected \<Rightarrow> (s, [])
                | Fulfilled tbl \<Rightarrow>
                    notifyGameEnd (s\<lparr>games_db := tbl\<rparr>) g gameId winner leftScore rightScore)))"

subsection \<open>The event loop\<close>

text \<open>
  The runtime runs one handler at a time, and a handler gives up control only at an
  \<^verbatim>\<open>await\<close>. \<^verbatim>\<open>handleInviteAccept\<close> and \<^verbatim>\<open>handleGameEnd\<close> each await one call of the
  gateway, so other handlers may run between the part before the call and the part
  after it. For properties of whole runs each of the two is cut at its \<^verbatim>\<open>await\<close>: the
  first part returns the local variables the second part still reads.
\<close>

type_synonym accept_frame = "invite \<times> int"
type_synonym end_frame = "game \<times> int \<times> string \<times> int \<times> int \<times> int"

text \<open>\<^verbatim>\<open>handleInviteAccept\<close> up to \<^verbatim>\<open>await prisma.game.create\<close>.\<close>

definition acceptBegin ::
  "coordinator \<Rightarrow> int \<Rightarrow> string \<Rightarrow> coordinator \<times> delivery list \<times> accept_frame option" where
  "acceptBegin s acceptingUser inviteId =
     (case activeInvites s inviteId of
        None \<Rightarrow>
          (s, sendToUser s acceptingUser (Game_invite_error ''Invite not found or expired''), None)
      | Some invt \<Rightarrow>
          if toUserId invt \<noteq> acceptingUser then
            (s, sendToUser s acceptingUser (Game_invite_error ''Invite not found or expired''), None)
          else
            (s\<lparr>activeInvites := (activeInvites s)(inviteId := None)\<rparr>, [],
             Some (invt, acceptingUser)))"

text \<open>\<^verbatim>\<open>handleInviteAccept\<close> from the moment the awaited call settles.\<close>

definition acceptResume ::
  "coordinator \<Rightarrow> accept_frame \<Rightarrow> int option \<Rightarrow> string \<Rightarrow> coordinator \<times> delivery list" where
  "acceptResume s frame assigned gameId =
     (case frame of
        (invt, acceptingUser) \<Rightarrow>
          (case prisma_game_create (games_db s) assigned (fromUserId invt) acceptingUser ''online'' of
             Rejected \<Rightarrow> (s, [])
           | Fulfilled (tbl, dbId) \<Rightarrow>
               (let s2 = s\<lparr>games_db := tbl\<rparr>;
                    s3 = s2\<lparr>activeGames := (activeGames s2)(gameId \<mapsto>
                            \<lparr>id_game = gameId, hostId = fromUserId invt,
                             guestId = acceptingUser, dbGameId = Some dbId\<rparr>)\<rparr>;
                    out1 = sendToUser s3 (fromUserId invt)
                             (Game_invite_accepted gameId dbId acceptingUser True);
                    out2 = sendToUser s3 acceptingUser
                             (Game_invite_accepted gameId dbId (fromUserId invt) False)
                in (s3, out1 @ out2))))"

text \<open>
  \<^verbatim>\<open>handleGameEnd\<close> up to \<^verbatim>\<open>await prisma.game.update\<close>; without a record id there is no
  call and the handler runs to its end.
\<close>

definition endBegin ::
  "coordinator \<Rightarrow> int \<Rightarrow> string \<Rightarrow> int \<Rightarrow> int \<Rightarrow> int \<Rightarrow>
     coordinator \<times> delivery list \<times> end_frame option" where
  "endBegin s fromUser gameId winner leftScore rightScore =
     (case activeGames s gameId of
        None \<Rightarrow> (s, [], None)
      | Some g \<Rightarrow>
          (case truthy (dbGameId g) of
             None \<Rightarrow>
               (case notifyGameEnd s g gameId winner leftScore rightScore of
                  (s1, out) \<Rightarrow> (s1, out, None))
           | Some rowId \<Rightarrow> (s, [], Some (g, rowId, gameId, winner, leftScore, rightScore))))"

text \<open>\<^verbatim>\<open>handleGameEnd\<close> from the moment the awaited call settles.\<close>

definition endResume :: "coordinator \<Rightarrow> end_frame \<Rightarrow> bool \<Rightarrow> coordinator \<times> delivery list" where
  "endResume s frame reachable =
     (case frame of
        (g, rowId, gameId, winner, leftScore, rightScore) \<Rightarrow>
          (case prisma_game_update (games_db s) reachable rowId leftScore rightScore winner of
             Rejected \<Rightarrow> (s, [])
           | Fulfilled tbl \<Rightarrow>
               notifyGameEnd (s\<lparr>games_db := tbl\<rparr>) g gameId winner leftScore rightScore))"

text \<open>
  The process: the module state, the handlers suspended at an \<^verbatim>\<open>await\<close>, and the number
  of sockets opened so far (every connection is a new socket object).
\<close>

record system =
  core :: coordinator
  acceptsAwaiting :: "accept_frame list"
  endsAwaiting :: "end_frame list"
  nextSocket :: nat

definition boot :: system where
  "boot = \<lparr>core = initial, acceptsAwaiting = [], endsAwaiting = [], nextSocket = 0\<rparr>"

text \<open>
  What the event loop can run next: a handshake that succeeded, the \<^verbatim>\<open>close\<close> of a
  socket, a frame of one of the seven types the router knows (with the user id of the
  socket it came in on and, where the handler draws them, the results of
  \<^verbatim>\<open>generateId()\<close> and \<^verbatim>\<open>new Date()\<close>), a timer that fires, an awaited call that
  settles, and a message of the \<^verbatim>\<open>chat:message\<close> channel.
\<close>

datatype event =
    Connected int
  | Closed int socket
  | Ping socket
  | Invite_msg int string int string int
  | Accept_msg int string
  | Create_settled nat "int option" string
  | Decline_msg int string
  | Timer_fired nat
  | Paddle_msg int string int
  | State_msg int string json
  | End_msg int string int int int
  | Update_settled nat bool
  | Chat_published int int string int

definition drop_nth :: "nat \<Rightarrow> 'a list \<Rightarrow> 'a list" where
  "drop_nth k xs = take k xs @ drop (Suc k) xs"

definition in_core :: "system \<Rightarrow> coordinator \<times> delivery list \<Rightarrow> system \<times> delivery list" where
  "in_core sys r = (case r of (s1, out) \<Rightarrow> (sys\<lparr>core := s1\<rparr>, out))"

fun step :: "system \<Rightarrow> event \<Rightarrow> system \<times> delivery list" where
  "step sys (Connected u) =
     (sys\<lparr>core := register (core sys) u (nextSocket sys), nextSocket := Suc (nextSocket sys)\<rparr>, [])"
| "step sys (Closed u c) = (sys\<lparr>core := unregister (core sys) u c\<rparr>, [])"
| "step sys (Ping c) = (sys, [(c, Pong)])"
| "step sys (Invite_msg u name toUser inviteId now) =
     in_core sys (handleGameInvite (core sys) u name toUser inviteId now)"
| "step sys (Accept_msg u inviteId) =
     (case acceptBegin (core sys) u inviteId of
        (s1, out, None) \<Rightarrow> (sys\<lparr>core := s1\<rparr>, out)
      | (s1, out, Some frame) \<Rightarrow>
          (sys\<lparr>core := s1, acceptsAwaiting := acceptsAwaiting sys @ [frame]\<rparr>, out))"
| "step sys (Create_settled k assigned gameId) =
     (if k < length (acceptsAwaiting sys) then
        in_core (sys\<lparr>acceptsAwaiting := drop_nth k (acceptsAwaiting sys)\<rparr>)
          (acceptResume (core sys) (acceptsAwaiting sys ! k) assigned gameId)
      else (sys, []))"
| "step sys (Decline_msg u inviteId) = in_core sys (handleInviteDecline (core sys) u inviteId)"
| "step sys (Timer_fired k) =
     (if k < length (timers (core sys)) then
        (case timers (core sys) ! k of
           (inviteId, fromUser) \<Rightarrow>
             in_core sys
               (expireInvite ((core sys)\<lparr>timers := drop_nth k (timers (core sys))\<rparr>) inviteId fromUser))
      else (sys, []))"
| "step sys (Paddle_msg u gameId paddleY) = in_core sys (relayPaddleUpdate (core sys) u gameId paddleY)"
| "step sys (State_msg u gameId st) = in_core sys (relayGameState (core sys) u gameId st)"
| "step sys (End_msg u gameId winner leftScore rightScore) =
     (case endBegin (core sys) u gameId winner leftScore rightScore of
        (s1, out, None) \<Rightarrow> (sys\<lparr>core := s1\<rparr>, out)
      | (s1, out, Some frame) \<Rightarrow>
          (sys\<lparr>core := s1, endsAwaiting := endsAwaiting sys @ [frame]\<rparr>, out))"
| "step sys (Update_settled k reachable) =
     (if k < length (endsAwaiting sys) then
        in_core (sys\<lparr>endsAwaiting := drop_nth k (endsAwaiting sys)\<rparr>)
          (endResume (core sys) (endsAwaiting sys ! k) reachable)
      else (sys, []))"
| "step sys (Chat_published toUser fromUser content messageId) =
     (sys, sendToUser (core sys) toUser (New_message fromUser content messageId))"

fun run :: "system \<Rightarrow> event list \<Rightarrow> system \<times> delivery list" where
  "run sys [] = (sys, [])"
| "run sys (e # es) =
     (case step sys e of
        (sys1, out1) \<Rightarrow> (case run sys1 es of (sys2, out2) \<Rightarrow> (sys2, out1 @ out2)))"

text \<open>An event that stores an invite under the id \<open>i\<close> (\<^verbatim>\<open>generateId()\<close> returned \<open>i\<close>).\<close>

fun allocates :: "string \<Rightarrow> event \<Rightarrow> bool" where
  "allocates i (Invite_msg u name toUser inviteId now) = (inviteId = i)"
| "allocates i _ = False"

text \<open>A \<^verbatim>\<open>game_invite\<close> frame whose target is its own sender.\<close>

fun self_invite :: "event \<Rightarrow> bool" where
  "self_invite (Invite_msg u name toUser inviteId now) = (toUser = u)"
| "self_invite _ = False"

text \<open>The sockets \<^verbatim>\<open>clients\<close> holds for a user.\<close>

definition socketsOf :: "coordinator \<Rightarrow> int \<Rightarrow> socket list" where
  "socketsOf s userId = (case clients s userId of None \<Rightarrow> [] | Some cs \<Rightarrow> cs)"

subsection \<open>Predicates on runs\<close>

text \<open>
  The event \<open>e\<close>, run in \<open>sys\<close>, takes the invite \<open>i\<close> out of the invite table: the invitee
  accepts it, the invitee declines it, or one of its timers fires while it is stored.
\<close>

fun resolves :: "system \<Rightarrow> string \<Rightarrow> event \<Rightarrow> bool" where
  "resolves sys i (Accept_msg u j) =
     (j = i \<and> (case activeInvites (core sys) i of None \<Rightarrow> False | Some invt \<Rightarrow> toUserId invt = u))"
| "resolves sys i (Decline_msg u j) =
     (j = i \<and> (case activeInvites (core sys) i of None \<Rightarrow> False | Some invt \<Rightarrow> toUserId invt = u))"
| "resolves sys i (Timer_fired k) =
     (k < length (timers (core sys)) \<and> fst (timers (core sys) ! k) = i
      \<and> activeInvites (core sys) i \<noteq> None)"
| "resolves sys i _ = False"

text \<open>No socket is registered under two users.\<close>

definition sockets_apart :: "coordinator \<Rightarrow> bool" where
  "sockets_apart s = (\<forall>u v. u \<noteq> v \<longrightarrow> set (socketsOf s u) \<inter> set (socketsOf s v) = {})"

definition registry_ok :: "system \<Rightarrow> bool" where
  "registry_ok sys =
     (sockets_apart (core sys) \<and> (\<forall>u. \<forall>c \<in> set (socketsOf (core sys) u). c < nextSocket sys))"


text \<open>
  Where the state comes from, given the events run so far: a stored invite was put
  there by a \<^verbatim>\<open>game_invite\<close> frame with its sender, target and id; an accept that waits
  for the gateway, and a session, go back to a \<^verbatim>\<open>game_invite\<close> frame from the host to the
  guest and a \<^verbatim>\<open>game_invite_accept\<close> frame of the guest for the same invite id.
\<close>

definition traced :: "event list \<Rightarrow> system \<Rightarrow> bool" where
  "traced evs sys =
     ((\<forall>i invt. activeInvites (core sys) i = Some invt \<longrightarrow>
          Invite_msg (fromUserId invt) (fromUsername invt) (toUserId invt) i (createdAt invt)
            \<in> set evs)
      \<and> (\<forall>fr \<in> set (acceptsAwaiting sys). \<exists>name i now.
            Invite_msg (fromUserId (fst fr)) name (snd fr) i now \<in> set evs
            \<and> Accept_msg (snd fr) i \<in> set evs)
      \<and> (\<forall>gid g. activeGames (core sys) gid = Some g \<longrightarrow>
            (\<exists>name i now. Invite_msg (hostId g) name (guestId g) i now \<in> set evs
               \<and> Accept_msg (guestId g) i \<in> set evs)))"

subsection \<open>Example runs\<close>

text \<open>
  User 1 connects once (socket 0) and user 2 twice (sockets 1 and 2); user 3 never
  connects. Then user 1 invites user 2 (\<^verbatim>\<open>generateId()\<close> returns \<open>i1\<close>), and user 2
  accepts; the database assigns the record id 7 and \<^verbatim>\<open>generateId()\<close> returns \<open>g1\<close>.
\<close>

definition online_evs :: "event list" where
  "online_evs = [Connected 1, Connected 2, Connected 2]"

definition invited_evs :: "event list" where
  "invited_evs = online_evs @ [Invite_msg 1 ''ann'' 2 ''i1'' 5]"

definition pair_evs :: "event list" where
  "pair_evs = invited_evs @ [Accept_msg 2 ''i1'', Create_settled 0 (Some 7) ''g1'']"

text \<open>User 1 connects, invites user 1 and accepts.\<close>

definition self_evs :: "event list" where
  "self_evs = [Connected 1, Invite_msg 1 ''ann'' 1 ''i1'' 5, Accept_msg 1 ''i1'',
               Create_settled 0 (Some 7) ''g1'']"

text \<open>
  After user 2 has accepted \<open>i1\<close>: user 2 accepts it again and declines it, its timer
  fires, and the creation that the first accept awaits returns.
\<close>

definition retry_evs :: "event list" where
  "retry_evs = [Accept_msg 2 ''i1'', Decline_msg 2 ''i1'', Timer_fired 0,
                Create_settled 0 (Some 7) ''g1'']"

definition two_online :: coordinator where
  "two_online = core (fst (run boot online_evs))"

definition invited :: coordinator where
  "invited = core (fst (run boot invited_evs))"

definition pair_match :: coordinator where
  "pair_match = core (fst (run boot pair_evs))"

definition self_match :: coordinator where
  "self_match = core (fst (run boot self_evs))"






text \<open>The session of users 1 and 2, and user 9 who connects and invites user 9.\<close>

definition mixed_evs :: "event list" where
  "mixed_evs = pair_evs @ [Connected 9, Invite_msg 9 ''zed'' 9 ''i9'' 6]"

section \<open>Shared lemmas\<close>

lemmas model_defs = boot_def initial_def register_def unregister_def handleGameInvite_def
  acceptBegin_def acceptResume_def handleInviteDecline_def expireInvite_def
  relayPaddleUpdate_def relayGameState_def endBegin_def endResume_def notifyGameEnd_def
  in_core_def prisma_game_create_def prisma_game_update_def sendToUser_def drop_nth_def
  truthy_def Let_def socketsOf_def

lemmas example_defs = online_evs_def invited_evs_def pair_evs_def self_evs_def two_online_def
  invited_def pair_match_def self_match_def

lemma sendToUser_socketsOf:
  "sendToUser s u m = map (\<lambda>c. (c, m)) (socketsOf s u)"
  by (simp add: sendToUser_def socketsOf_def split: option.splits)

text \<open>The example states, field by field.\<close>

lemma two_online_fields:
  "clients two_online 1 = Some [0]" "clients two_online 2 = Some [1, 2]"
  "clients two_online 3 = None" "activeInvites two_online = Map.empty" "timers two_online = []"
  by (simp_all add: example_defs model_defs)

lemma invited_fields:
  "clients invited 1 = Some [0]" "clients invited 2 = Some [1, 2]" "clients invited 3 = None"
  "activeInvites invited ''i1'' =
     Some \<lparr>id_invite = ''i1'', fromUserId = 1, fromUsername = ''ann'', toUserId = 2, createdAt = 5\<rparr>"
  "activeGames invited = Map.empty" "games_db invited = Map.empty"
  by (simp_all add: example_defs model_defs)

lemma pair_match_fields:
  "clients pair_match 1 = Some [0]" "clients pair_match 2 = Some [1, 2]"
  "clients pair_match 3 = None"
  "activeGames pair_match ''g1'' =
     Some \<lparr>id_game = ''g1'', hostId = 1, guestId = 2, dbGameId = Some 7\<rparr>"
  "games_db pair_match 7 =
     Some \<lparr>player1Id = 1, player2Id = Some 2, gameMode = ''online'', player1Score = None,
           player2Score = None, winnerId = None\<rparr>"
  by (simp_all add: example_defs model_defs)

lemma self_match_fields:
  "clients self_match 1 = Some [0]"
  "activeGames self_match ''g1'' =
     Some \<lparr>id_game = ''g1'', hostId = 1, guestId = 1, dbGameId = Some 7\<rparr>"
  by (simp_all add: example_defs model_defs)

section \<open>Creating an invite\<close>

text \<open>
  Claim C8. When the target of \<^verbatim>\<open>handleGameInvite\<close> has no entry in \<^verbatim>\<open>clients\<close>, every
  socket of the inviter gets \<^verbatim>\<open>game_invite_error\<close> with the text "User is not online" and
  nothing else is written: the state, and with it the invite table and the scheduled
  timers, is unchanged. When the target has an entry, the invite is stored under the
  generated id, every socket of the invitee gets \<^verbatim>\<open>game_invite\<close>, then every socket of
  the inviter gets \<^verbatim>\<open>game_invite_sent\<close>, and one timer for this invite is scheduled.
\<close>

theorem handleGameInvite_offline_online:
  "(clients s toUser = None \<longrightarrow>
      handleGameInvite s fromUser fromName toUser inviteId now =
        (s, map (\<lambda>c. (c, Game_invite_error ''User is not online''))
              (case clients s fromUser of None \<Rightarrow> [] | Some cs \<Rightarrow> cs)))
   \<and> (clients s toUser = Some cs \<longrightarrow>
      (case handleGameInvite s fromUser fromName toUser inviteId now of
         (s', out) \<Rightarrow>
           activeInvites s' = (activeInvites s)(inviteId \<mapsto>
              \<lparr>id_invite = inviteId, fromUserId = fromUser, fromUsername = fromName,
               toUserId = toUser, createdAt = now\<rparr>)
           \<and> out = map (\<lambda>c. (c, Game_invite inviteId fromUser fromName now)) cs
                   @ sendToUser s fromUser (Game_invite_sent inviteId toUser)
           \<and> timers s' = timers s @ [(inviteId, fromUser)]
           \<and> clients s' = clients s \<and> activeGames s' = activeGames s
           \<and> games_db s' = games_db s))"
  by (auto simp: handleGameInvite_def sendToUser_def Let_def split: option.splits)

theorem handleGameInvite_offline_online_witness:
  "handleGameInvite two_online 1 ''ann'' 3 ''i1'' 5 =
     (two_online, [(0, Game_invite_error ''User is not online'')])
   \<and> activeInvites (fst (handleGameInvite two_online 1 ''ann'' 2 ''i1'' 5)) ''i1'' =
       Some \<lparr>id_invite = ''i1'', fromUserId = 1, fromUsername = ''ann'', toUserId = 2, createdAt = 5\<rparr>
   \<and> snd (handleGameInvite two_online 1 ''ann'' 2 ''i1'' 5) =
       [(1, Game_invite ''i1'' 1 ''ann'' 5), (2, Game_invite ''i1'' 1 ''ann'' 5),
        (0, Game_invite_sent ''i1'' 2)]
   \<and> timers (fst (handleGameInvite two_online 1 ''ann'' 2 ''i1'' 5)) = [(''i1'', 1)]"
proof -
  note f = two_online_fields
  from handleGameInvite_offline_online [of two_online 3 1 "''ann''" "''i1''" 5 "[]"] f
  have a: "handleGameInvite two_online 1 ''ann'' 3 ''i1'' 5 =
     (two_online, [(0, Game_invite_error ''User is not online'')])"
    by simp
  from handleGameInvite_offline_online [of two_online 2 1 "''ann''" "''i1''" 5 "[1, 2]"] f
  have b: "activeInvites (fst (handleGameInvite two_online 1 ''ann'' 2 ''i1'' 5)) ''i1'' =
       Some \<lparr>id_invite = ''i1'', fromUserId = 1, fromUsername = ''ann'', toUserId = 2, createdAt = 5\<rparr>
   \<and> snd (handleGameInvite two_online 1 ''ann'' 2 ''i1'' 5) =
       [(1, Game_invite ''i1'' 1 ''ann'' 5), (2, Game_invite ''i1'' 1 ''ann'' 5),
        (0, Game_invite_sent ''i1'' 2)]
   \<and> timers (fst (handleGameInvite two_online 1 ''ann'' 2 ''i1'' 5)) = [(''i1'', 1)]"
    by (auto simp: sendToUser_def split: prod.splits)
  from a b show ?thesis by simp
qed

section \<open>Cutting a handler at its await\<close>

text \<open>Run without another handler in between, the two parts are the handler.\<close>

lemma handleInviteAccept_cut:
  "handleInviteAccept s u inviteId assigned gameId =
     (case acceptBegin s u inviteId of
        (s1, out, None) \<Rightarrow> (s1, out)
      | (s1, out, Some frame) \<Rightarrow>
          (case acceptResume s1 frame assigned gameId of (s2, out2) \<Rightarrow> (s2, out @ out2)))"
  by (simp add: handleInviteAccept_def acceptBegin_def acceptResume_def Let_def
        split: option.splits promise.splits prod.splits)

lemma handleGameEnd_cut:
  "handleGameEnd s u gameId winner l r reachable =
     (case endBegin s u gameId winner l r of
        (s1, out, None) \<Rightarrow> (s1, out)
      | (s1, out, Some frame) \<Rightarrow>
          (case endResume s1 frame reachable of (s2, out2) \<Rightarrow> (s2, out @ out2)))"
  by (simp add: handleGameEnd_def endBegin_def endResume_def
        split: option.splits promise.splits prod.splits)

section \<open>Accepting an invite\<close>





section \<open>The gateway fails while a session is opened\<close>

text \<open>
  Claim C6, as amended. When the invite is in the table, the accepting user is its
  invitee and \<^verbatim>\<open>prisma.game.create\<close> throws, \<^verbatim>\<open>handleInviteAccept\<close> has removed the invite
  and does not put it back; nothing else has changed and nothing is written to a
  socket. The session is stored only after the call has returned, so no session is
  stored and none exists without a match record.
\<close>

theorem handleInviteAccept_create_throws:
  assumes "activeInvites s inviteId = Some invt" and "toUserId invt = acceptingUser"
  shows "handleInviteAccept s acceptingUser inviteId None gameId =
           (s\<lparr>activeInvites := (activeInvites s)(inviteId := None)\<rparr>, [])"
  using assms
  by (simp add: handleInviteAccept_def prisma_game_create_def)

theorem handleInviteAccept_create_throws_witness:
  "handleInviteAccept invited 2 ''i1'' None ''g1'' =
     (invited\<lparr>activeInvites := (activeInvites invited)(''i1'' := None)\<rparr>, [])
   \<and> activeGames (invited\<lparr>activeInvites := (activeInvites invited)(''i1'' := None)\<rparr>) = Map.empty"
proof -
  let ?invt = "\<lparr>id_invite = ''i1'', fromUserId = 1, fromUsername = ''ann'', toUserId = 2,
                 createdAt = 5\<rparr>"
  have stored: "activeInvites invited ''i1'' = Some ?invt"
    by (rule invited_fields)
  have invitee: "toUserId ?invt = 2"
    by simp
  from handleInviteAccept_create_throws [OF stored invitee, of "''g1''"]
  show ?thesis
    by (simp add: invited_fields)
qed

text \<open>
  The claim as it was stated fails: user 2 accepts the invite of user 1 and the creation
  throws. Afterwards the session table is empty, the invite is gone and nothing was
  sent; the same holds when the two parts of the handler run as separate events.
\<close>

theorem session_before_create_counterexample:
  "dom (activeGames (fst (handleInviteAccept invited 2 ''i1'' None ''g1''))) = {}
   \<and> activeInvites (fst (handleInviteAccept invited 2 ''i1'' None ''g1'')) ''i1'' = None
   \<and> snd (handleInviteAccept invited 2 ''i1'' None ''g1'') = []
   \<and> dom (activeGames (core (fst (run boot
        (invited_evs @ [Accept_msg 2 ''i1'', Create_settled 0 None ''g1'']))))) = {}"
  by (simp add: handleInviteAccept_def example_defs model_defs)

section \<open>Sockets belong to one user\<close>

text \<open>
  Every connection registers a new socket under the user of its token, so in a state the
  process can reach no socket is registered under two users.
\<close>

lemma registry_ok_boot: "registry_ok boot"
  by (simp add: registry_ok_def sockets_apart_def socketsOf_def boot_def initial_def)

lemma socketsOf_register:
  "socketsOf (register s u c) v =
     (if v = u then (if c \<in> set (socketsOf s u) then socketsOf s u else socketsOf s u @ [c])
      else socketsOf s v)"
  by (auto simp: socketsOf_def register_def Let_def split: option.splits)

lemma socketsOf_unregister:
  "set (socketsOf (unregister s u c) v) \<subseteq> set (socketsOf s v)"
  by (auto simp: socketsOf_def unregister_def Let_def split: option.splits if_splits)

lemma clients_step:
  "(\<forall>u. e \<noteq> Connected u) \<Longrightarrow> (\<forall>u c. e \<noteq> Closed u c) \<Longrightarrow>
     clients (core (fst (step sys e))) = clients (core sys)
     \<and> nextSocket (fst (step sys e)) = nextSocket sys"
  by (cases e)
     (auto simp: handleGameInvite_def acceptBegin_def acceptResume_def handleInviteDecline_def
                 expireInvite_def relayPaddleUpdate_def relayGameState_def endBegin_def
                 endResume_def notifyGameEnd_def in_core_def prisma_game_create_def
                 prisma_game_update_def Let_def
           split: option.splits prod.splits if_splits promise.splits)

lemma registry_ok_step:
  assumes "registry_ok sys"
  shows "registry_ok (fst (step sys e))"
proof (cases e)
  case (Connected u)
  from assms have fresh: "\<And>v. nextSocket sys \<notin> set (socketsOf (core sys) v)"
    by (auto simp: registry_ok_def)
  from assms fresh show ?thesis
    by (auto simp: Connected registry_ok_def sockets_apart_def socketsOf_register less_Suc_eq)
next
  case (Closed u c)
  from assms show ?thesis
    using socketsOf_unregister [of "core sys" u c]
    by (simp add: Closed registry_ok_def sockets_apart_def) blast
qed (use assms clients_step [of e sys] in
      \<open>simp_all add: registry_ok_def sockets_apart_def socketsOf_def\<close>)

lemma registry_ok_run:
  "registry_ok sys \<Longrightarrow> registry_ok (fst (run sys evs))"
proof (induction evs arbitrary: sys)
  case Nil
  then show ?case by simp
next
  case (Cons e es)
  from Cons.prems have "registry_ok (fst (step sys e))"
    by (rule registry_ok_step)
  from Cons.IH [OF this] show ?case
    by (auto split: prod.splits)
qed

lemma sockets_apart_reachable: "sockets_apart (core (fst (run boot evs)))"
  using registry_ok_run [OF registry_ok_boot, of evs] by (simp add: registry_ok_def)

lemma sockets_apart_pair_match: "sockets_apart pair_match"
  unfolding pair_match_def by (rule sockets_apart_reachable)

section \<open>Relaying the game state\<close>

text \<open>
  Claim C3, as amended. \<^verbatim>\<open>relayGameState\<close> writes nothing and changes nothing when the
  session id is unknown or the caller is not the host of the session. When the caller
  is the host, the state is unchanged and \<^verbatim>\<open>game_state\<close> is written to every socket of
  the guest and to no other socket; so no socket of the host gets it when host and
  guest are different users and no socket is registered under two users.
\<close>

theorem relayGameState_host_to_guest:
  "(activeGames s gameId = None \<longrightarrow> relayGameState s fromUser gameId st = (s, []))
   \<and> (activeGames s gameId = Some g \<and> hostId g \<noteq> fromUser \<longrightarrow>
        relayGameState s fromUser gameId st = (s, []))
   \<and> (activeGames s gameId = Some g \<and> hostId g = fromUser \<longrightarrow>
        relayGameState s fromUser gameId st =
          (s, map (\<lambda>c. (c, Game_state gameId st)) (socketsOf s (guestId g)))
        \<and> (hostId g \<noteq> guestId g \<and> sockets_apart s \<longrightarrow>
             (\<forall>c \<in> set (socketsOf s (hostId g)). \<forall>m.
                (c, m) \<notin> set (snd (relayGameState s fromUser gameId st)))))"
  by (auto simp: relayGameState_def sendToUser_socketsOf sockets_apart_def)

theorem relayGameState_host_to_guest_witness:
  "relayGameState pair_match 1 ''zz'' ''{}'' = (pair_match, [])
   \<and> relayGameState pair_match 2 ''g1'' ''{}'' = (pair_match, [])
   \<and> relayGameState pair_match 1 ''g1'' ''{}'' =
       (pair_match, [(1, Game_state ''g1'' ''{}''), (2, Game_state ''g1'' ''{}'')])
   \<and> (0, Game_state ''g1'' ''{}'') \<notin> set (snd (relayGameState pair_match 1 ''g1'' ''{}''))"
proof -
  let ?g = "\<lparr>id_game = ''g1'', hostId = 1, guestId = 2, dbGameId = Some 7\<rparr>"
  have unknown: "activeGames pair_match ''zz'' = None"
    by (simp add: example_defs model_defs)
  have known: "activeGames pair_match ''g1'' = Some ?g"
    by (rule pair_match_fields)
  have host_socket: "0 \<in> set (socketsOf pair_match 1)"
    by (simp add: socketsOf_def pair_match_fields)
  from relayGameState_host_to_guest [of pair_match "''zz''" 1 "''{}''" ?g] unknown
  have a: "relayGameState pair_match 1 ''zz'' ''{}'' = (pair_match, [])"
    by simp
  from relayGameState_host_to_guest [of pair_match "''g1''" 2 "''{}''" ?g] known
  have b: "relayGameState pair_match 2 ''g1'' ''{}'' = (pair_match, [])"
    by simp
  from relayGameState_host_to_guest [of pair_match "''g1''" 1 "''{}''" ?g] known
    sockets_apart_pair_match host_socket
  have c: "relayGameState pair_match 1 ''g1'' ''{}'' =
       (pair_match, [(1, Game_state ''g1'' ''{}''), (2, Game_state ''g1'' ''{}'')])
     \<and> (0, Game_state ''g1'' ''{}'') \<notin> set (snd (relayGameState pair_match 1 ''g1'' ''{}''))"
    by (simp add: socketsOf_def pair_match_fields)
  from a b c show ?thesis by simp
qed

text \<open>
  The claim as it was stated fails in a session whose host is also its guest: user 1 has
  invited user 1 and accepted, and sends \<^verbatim>\<open>game_state\<close>. Socket 0, a socket of the host,
  gets the frame.
\<close>

theorem relayGameState_reaches_host_counterexample:
  "map_option hostId (activeGames self_match ''g1'') = Some 1
   \<and> clients self_match 1 = Some [0]
   \<and> relayGameState self_match 1 ''g1'' ''{}'' = (self_match, [(0, Game_state ''g1'' ''{}'')])"
  by (simp add: self_match_fields relayGameState_def sendToUser_def)

section \<open>Relaying a paddle position\<close>

text \<open>
  Claim C7, as amended. For a session whose host and guest are different users, in a
  state where no socket is registered under two users, \<^verbatim>\<open>relayPaddleUpdate\<close> changes
  nothing and writes \<^verbatim>\<open>game_paddle_update\<close> to every socket of the guest when the sender
  is the host, and to every socket of the host otherwise, and to no other socket; no
  socket of the sender gets the frame, however many sockets the sender has.
\<close>

theorem relayPaddleUpdate_other_participant:
  assumes "activeGames s gameId = Some g" and "hostId g \<noteq> guestId g" and "sockets_apart s"
  shows "relayPaddleUpdate s fromUser gameId y =
           (s, map (\<lambda>c. (c, Game_paddle_update gameId y))
                 (socketsOf s (if fromUser = hostId g then guestId g else hostId g)))
         \<and> (\<forall>c \<in> set (socketsOf s fromUser). \<forall>m.
               (c, m) \<notin> set (snd (relayPaddleUpdate s fromUser gameId y)))"
  using assms
  by (auto simp: relayPaddleUpdate_def sendToUser_socketsOf sockets_apart_def)

theorem relayPaddleUpdate_other_participant_witness:
  "relayPaddleUpdate pair_match 2 ''g1'' 42 = (pair_match, [(0, Game_paddle_update ''g1'' 42)])
   \<and> (1, Game_paddle_update ''g1'' 42) \<notin> set (snd (relayPaddleUpdate pair_match 2 ''g1'' 42))
   \<and> (2, Game_paddle_update ''g1'' 42) \<notin> set (snd (relayPaddleUpdate pair_match 2 ''g1'' 42))
   \<and> relayPaddleUpdate pair_match 1 ''g1'' 42 =
       (pair_match, [(1, Game_paddle_update ''g1'' 42), (2, Game_paddle_update ''g1'' 42)])"
proof -
  let ?g = "\<lparr>id_game = ''g1'', hostId = 1, guestId = 2, dbGameId = Some 7\<rparr>"
  have known: "activeGames pair_match ''g1'' = Some ?g"
    by (rule pair_match_fields)
  have parties: "hostId ?g \<noteq> guestId ?g"
    by simp
  have mine: "1 \<in> set (socketsOf pair_match 2)" "2 \<in> set (socketsOf pair_match 2)"
    by (simp_all add: socketsOf_def pair_match_fields)
  from relayPaddleUpdate_other_participant [OF known parties sockets_apart_pair_match, of 2 42] mine
  have a: "relayPaddleUpdate pair_match 2 ''g1'' 42 =
             (pair_match, [(0, Game_paddle_update ''g1'' 42)])
     \<and> (1, Game_paddle_update ''g1'' 42) \<notin> set (snd (relayPaddleUpdate pair_match 2 ''g1'' 42))
     \<and> (2, Game_paddle_update ''g1'' 42) \<notin> set (snd (relayPaddleUpdate pair_match 2 ''g1'' 42))"
    by (simp add: socketsOf_def pair_match_fields)
  from relayPaddleUpdate_other_participant [OF known parties sockets_apart_pair_match, of 1 42]
  have b: "relayPaddleUpdate pair_match 1 ''g1'' 42 =
       (pair_match, [(1, Game_paddle_update ''g1'' 42), (2, Game_paddle_update ''g1'' 42)])"
    by (simp add: socketsOf_def pair_match_fields)
  from a b show ?thesis by simp
qed

text \<open>
  The claim as it was stated fails in a session whose host is also its guest: user 1 has
  invited user 1 and accepted, and sends a paddle position. Socket 0, the sender's own
  socket, gets the frame back.
\<close>

theorem relayPaddleUpdate_echo_counterexample:
  "map_option (\<lambda>g. (hostId g, guestId g)) (activeGames self_match ''g1'') = Some (1, 1)
   \<and> clients self_match 1 = Some [0]
   \<and> relayPaddleUpdate self_match 1 ''g1'' 42 =
       (self_match, [(0, Game_paddle_update ''g1'' 42)])"
  by (simp add: self_match_fields relayPaddleUpdate_def sendToUser_def)

text \<open>
  Claim C10. For a session in the table and a sender that is neither its host nor its
  guest, \<^verbatim>\<open>relayPaddleUpdate\<close> writes \<^verbatim>\<open>game_paddle_update\<close> to every socket of the host
  (the target is the guest only when the sender is the host, and the host otherwise);
  when the host has a socket, something is written.
\<close>

theorem relayPaddleUpdate_outsider_reaches_host:
  assumes "activeGames s gameId = Some g" and "fromUser \<noteq> hostId g" and "fromUser \<noteq> guestId g"
  shows "relayPaddleUpdate s fromUser gameId y =
           (s, map (\<lambda>c. (c, Game_paddle_update gameId y)) (socketsOf s (hostId g)))
         \<and> (snd (relayPaddleUpdate s fromUser gameId y) = []) = (socketsOf s (hostId g) = [])"
  using assms
  by (auto simp: relayPaddleUpdate_def sendToUser_socketsOf)

theorem relayPaddleUpdate_outsider_reaches_host_witness:
  "relayPaddleUpdate pair_match 3 ''g1'' 42 = (pair_match, [(0, Game_paddle_update ''g1'' 42)])
   \<and> socketsOf pair_match 1 = [0]"
proof -
  let ?g = "\<lparr>id_game = ''g1'', hostId = 1, guestId = 2, dbGameId = Some 7\<rparr>"
  have known: "activeGames pair_match ''g1'' = Some ?g"
    by (rule pair_match_fields)
  have outsider: "3 \<noteq> hostId ?g" "3 \<noteq> guestId ?g"
    by simp_all
  from relayPaddleUpdate_outsider_reaches_host [OF known outsider, of 42]
  show ?thesis
    by (simp add: socketsOf_def pair_match_fields)
qed

section \<open>Ending a game\<close>




text \<open>
  Claim C9. \<^verbatim>\<open>handleGameEnd\<close> does not read the id of the user who sent the frame: with
  the same session id, winner and scores, two senders get the same new state and the
  same frames, also when the two parts of the handler run as separate events. Nothing
  compares the sender or the winner with the host or the guest: for every sender and
  every winner id, when the session carries the id of its match record and the gateway
  performs the update, the record gets that winner, host and guest are notified and the
  session is removed.
\<close>

theorem handleGameEnd_ignores_sender:
  "handleGameEnd s u1 gameId winner l r reachable = handleGameEnd s u2 gameId winner l r reachable
   \<and> step sys (End_msg u1 gameId winner l r) = step sys (End_msg u2 gameId winner l r)
   \<and> (activeGames s gameId = Some g \<and> truthy (dbGameId g) = Some rowId
        \<and> games_db s rowId = Some row \<and> reachable \<longrightarrow>
      (case handleGameEnd s u1 gameId winner l r reachable of
         (s', out) \<Rightarrow>
           map_option winnerId (games_db s' rowId) = Some (Some winner)
           \<and> out = sendToUser s (hostId g) (Game_ended gameId winner l r)
                   @ sendToUser s (guestId g) (Game_ended gameId winner l r)
           \<and> activeGames s' gameId = None))"
  by (auto simp: handleGameEnd_def endBegin_def notifyGameEnd_def prisma_game_update_def
        sendToUser_def Let_def split: option.splits)

theorem handleGameEnd_ignores_sender_witness:
  "handleGameEnd pair_match 3 ''g1'' 99 0 0 True = handleGameEnd pair_match 1 ''g1'' 99 0 0 True
   \<and> map_option winnerId (games_db (fst (handleGameEnd pair_match 3 ''g1'' 99 0 0 True)) 7) =
       Some (Some 99)
   \<and> snd (handleGameEnd pair_match 3 ''g1'' 99 0 0 True) =
       [(0, Game_ended ''g1'' 99 0 0), (1, Game_ended ''g1'' 99 0 0), (2, Game_ended ''g1'' 99 0 0)]
   \<and> activeGames (fst (handleGameEnd pair_match 3 ''g1'' 99 0 0 True)) ''g1'' = None"
proof -
  let ?g = "\<lparr>id_game = ''g1'', hostId = 1, guestId = 2, dbGameId = Some 7\<rparr>"
  let ?row = "\<lparr>player1Id = 1, player2Id = Some 2, gameMode = ''online'', player1Score = None,
                player2Score = None, winnerId = None\<rparr>"
  have known: "activeGames pair_match ''g1'' = Some ?g"
    by (rule pair_match_fields)
  have linked: "truthy (dbGameId ?g) = Some 7"
    by (simp add: truthy_def)
  have row: "games_db pair_match 7 = Some ?row"
    by (rule pair_match_fields)
  from handleGameEnd_ignores_sender
         [of pair_match 3 "''g1''" 99 0 0 True 1 boot ?g 7 ?row]
       known linked row
  show ?thesis
    by (auto simp: sendToUser_def pair_match_fields split: prod.splits)
qed

section \<open>An invite leaves the table once\<close>

lemma resolves_removes:
  "resolves sys i e \<Longrightarrow> activeInvites (core (fst (step sys e))) i = None"
  by (cases e)
     (auto simp: acceptBegin_def handleInviteDecline_def expireInvite_def in_core_def
           split: option.splits prod.splits)

lemma absent_step:
  "activeInvites (core sys) i = None \<Longrightarrow> \<not> allocates i e \<Longrightarrow>
     activeInvites (core (fst (step sys e))) i = None"
  by (cases e)
     (auto simp: register_def unregister_def handleGameInvite_def acceptBegin_def
                 acceptResume_def handleInviteDecline_def expireInvite_def relayPaddleUpdate_def
                 relayGameState_def endBegin_def endResume_def notifyGameEnd_def in_core_def
                 prisma_game_create_def prisma_game_update_def Let_def
           split: option.splits prod.splits if_splits promise.splits)

lemma absent_step_silent:
  "activeInvites (core sys) i = None \<Longrightarrow> (c, Game_invite_expired i) \<notin> set (snd (step sys e))"
  by (cases e)
     (auto simp: register_def unregister_def handleGameInvite_def acceptBegin_def
                 acceptResume_def handleInviteDecline_def expireInvite_def relayPaddleUpdate_def
                 relayGameState_def endBegin_def endResume_def notifyGameEnd_def in_core_def
                 prisma_game_create_def prisma_game_update_def Let_def sendToUser_socketsOf
           split: option.splits prod.splits if_splits promise.splits)

lemma absent_run:
  "activeInvites (core sys) i = None \<Longrightarrow> \<forall>e \<in> set evs. \<not> allocates i e \<Longrightarrow>
     activeInvites (core (fst (run sys evs))) i = None
     \<and> (\<forall>c. (c, Game_invite_expired i) \<notin> set (snd (run sys evs)))"
proof (induction evs arbitrary: sys)
  case Nil
  then show ?case by simp
next
  case (Cons e es)
  obtain sys1 out1 where st: "step sys e = (sys1, out1)"
    by (cases "step sys e")
  from Cons.prems have a1: "activeInvites (core sys1) i = None"
    using absent_step [of sys i e] st by simp
  from Cons.prems have q1: "\<forall>c. (c, Game_invite_expired i) \<notin> set out1"
    using absent_step_silent [of sys i _ e] st by simp
  from Cons.IH [OF a1] Cons.prems
  have ih: "activeInvites (core (fst (run sys1 es))) i = None
     \<and> (\<forall>c. (c, Game_invite_expired i) \<notin> set (snd (run sys1 es)))"
    by simp
  show ?case using st ih q1 by (auto split: prod.splits)
qed

lemma absent_rejects:
  assumes "activeInvites (core sys) i = None"
  shows "step sys (Accept_msg u i) =
           (sys, map (\<lambda>c. (c, Game_invite_error ''Invite not found or expired''))
                   (socketsOf (core sys) u))"
    and "step sys (Decline_msg u i) = (sys, [])"
    and "expireInvite (core sys) i f = (core sys, [])"
  using assms
  by (simp_all add: acceptBegin_def handleInviteDecline_def expireInvite_def in_core_def
        sendToUser_socketsOf)

text \<open>
  Claim C2. Let an event take the invite \<open>i\<close> out of the table: its invitee accepts it,
  its invitee declines it, or its timer fires while it is stored. Then the invite is
  absent, and it stays absent through every later run of events in which
  \<^verbatim>\<open>generateId()\<close> does not return \<open>i\<close> again for a new invite. At the end of such a run
  an accept of \<open>i\<close> by any user only writes \<^verbatim>\<open>game_invite_error\<close> to that user and leaves
  the whole process state as it is (no session is stored and no call of the gateway is
  started), a decline of \<open>i\<close> does nothing, the callback of a timer of \<open>i\<close> does nothing,
  and the run has written no \<^verbatim>\<open>game_invite_expired\<close> for \<open>i\<close>.
\<close>

theorem invite_leaves_pending_once:
  assumes "resolves sys0 i e" and "\<forall>e' \<in> set evs. \<not> allocates i e'"
  shows "case run (fst (step sys0 e)) evs of
           (sys, out) \<Rightarrow>
             activeInvites (core sys) i = None
           \<and> step sys (Accept_msg u i) =
               (sys, map (\<lambda>c. (c, Game_invite_error ''Invite not found or expired''))
                       (socketsOf (core sys) u))
           \<and> step sys (Decline_msg u i) = (sys, [])
           \<and> expireInvite (core sys) i f = (core sys, [])
           \<and> (\<forall>c. (c, Game_invite_expired i) \<notin> set out)"
proof -
  obtain sys out where r: "run (fst (step sys0 e)) evs = (sys, out)"
    by (cases "run (fst (step sys0 e)) evs")
  have "activeInvites (core (fst (step sys0 e))) i = None"
    using assms(1) by (rule resolves_removes)
  from absent_run [OF this assms(2)] r
  have a: "activeInvites (core sys) i = None" and q: "\<forall>c. (c, Game_invite_expired i) \<notin> set out"
    by simp_all
  show ?thesis using r q a absent_rejects [OF a] by simp
qed

theorem invite_leaves_pending_once_witness:
  "activeInvites
     (core (fst (run (fst (step (fst (run boot invited_evs)) (Accept_msg 2 ''i1''))) retry_evs)))
     ''i1'' = None
   \<and> snd (run (fst (step (fst (run boot invited_evs)) (Accept_msg 2 ''i1''))) retry_evs) =
       [(1, Game_invite_error ''Invite not found or expired''),
        (2, Game_invite_error ''Invite not found or expired''),
        (0, Game_invite_accepted ''g1'' 7 2 True), (1, Game_invite_accepted ''g1'' 7 1 False),
        (2, Game_invite_accepted ''g1'' 7 1 False)]
   \<and> dom (activeGames
        (core (fst (run (fst (step (fst (run boot invited_evs)) (Accept_msg 2 ''i1''))) retry_evs))))
       = {''g1''}"
proof -
  have first: "resolves (fst (run boot invited_evs)) ''i1'' (Accept_msg 2 ''i1'')"
    by (simp add: example_defs model_defs)
  have no_reuse: "\<forall>e' \<in> set retry_evs. \<not> allocates ''i1'' e'"
    by (simp add: retry_evs_def)
  from invite_leaves_pending_once [OF first no_reuse, of 2 1]
  have a: "activeInvites
     (core (fst (run (fst (step (fst (run boot invited_evs)) (Accept_msg 2 ''i1''))) retry_evs)))
     ''i1'' = None"
    by (simp split: prod.splits)
  have b: "snd (run (fst (step (fst (run boot invited_evs)) (Accept_msg 2 ''i1''))) retry_evs) =
       [(1, Game_invite_error ''Invite not found or expired''),
        (2, Game_invite_error ''Invite not found or expired''),
        (0, Game_invite_accepted ''g1'' 7 2 True), (1, Game_invite_accepted ''g1'' 7 1 False),
        (2, Game_invite_accepted ''g1'' 7 1 False)]
   \<and> dom (activeGames
        (core (fst (run (fst (step (fst (run boot invited_evs)) (Accept_msg 2 ''i1''))) retry_evs))))
       = {''g1''}"
    by (simp add: retry_evs_def example_defs model_defs)
  from a b show ?thesis by simp
qed

section \<open>The two users of a session\<close>

lemma set_drop_nth: "set (drop_nth k xs) \<subseteq> set xs"
  by (auto simp: drop_nth_def dest: in_set_takeD in_set_dropD)

lemma traced_more: "traced evs sys \<Longrightarrow> set evs \<subseteq> set evs' \<Longrightarrow> traced evs' sys"
  unfolding traced_def by (simp add: subset_iff) blast

lemma traced_boot: "traced [] boot"
  by (simp add: traced_def boot_def initial_def)

lemma traced_step:
  assumes "traced evs sys"
  shows "traced (evs @ [e]) (fst (step sys e))"
proof -
  from assms have old: "traced (evs @ [e]) sys"
    by (rule traced_more) auto
  show ?thesis
  proof (cases e)
    case (Invite_msg u name toUser inviteId now)
    with old show ?thesis
      by (auto simp: traced_def handleGameInvite_def in_core_def Let_def)
  next
    case (Accept_msg u inviteId)
    show ?thesis
    proof (cases "activeInvites (core sys) inviteId")
      case None
      with old show ?thesis
        by (simp add: Accept_msg traced_def acceptBegin_def)
    next
      case (Some invt)
      from assms Some
      have origin: "Invite_msg (fromUserId invt) (fromUsername invt) (toUserId invt) inviteId
                      (createdAt invt) \<in> set evs"
        by (simp add: traced_def)
      show ?thesis
      proof (cases "toUserId invt = u")
        case False
        with old Some show ?thesis
          by (simp add: Accept_msg traced_def acceptBegin_def)
      next
        case True
        with origin
        have frame: "\<exists>name i now. Invite_msg (fromUserId invt) name u i now \<in> set (evs @ [e])
                       \<and> Accept_msg u i \<in> set (evs @ [e])"
          by (auto simp: Accept_msg)
        from old Some True frame show ?thesis
          by (auto simp: Accept_msg traced_def acceptBegin_def)
      qed
    qed
  next
    case (Create_settled k assigned gameId)
    show ?thesis
    proof (cases "k < length (acceptsAwaiting sys)")
      case False
      with old show ?thesis by (simp add: Create_settled)
    next
      case True
      obtain invt u where fr: "acceptsAwaiting sys ! k = (invt, u)"
        by (cases "acceptsAwaiting sys ! k")
      from True have "acceptsAwaiting sys ! k \<in> set (acceptsAwaiting sys)"
        by simp
      with old fr
      have origin: "\<exists>name i now. Invite_msg (fromUserId invt) name u i now \<in> set (evs @ [e])
                      \<and> Accept_msg u i \<in> set (evs @ [e])"
        unfolding traced_def by fastforce
      from old True fr origin show ?thesis
        using set_drop_nth [of k "acceptsAwaiting sys"]
        by (auto simp: Create_settled traced_def acceptResume_def in_core_def
              prisma_game_create_def Let_def split: option.splits)
    qed
  next
    case (Timer_fired k)
    with old show ?thesis
      by (auto simp: traced_def expireInvite_def in_core_def split: prod.splits)
  next
    case (Update_settled k reachable)
    with old show ?thesis
      by (auto simp: traced_def endResume_def notifyGameEnd_def in_core_def
            prisma_game_update_def Let_def split: option.splits prod.splits if_splits)
  qed (use old in \<open>auto simp: traced_def register_def unregister_def handleInviteDecline_def
          relayPaddleUpdate_def relayGameState_def endBegin_def notifyGameEnd_def in_core_def
          Let_def split: option.splits prod.splits if_splits\<close>)
qed

lemma traced_run:
  "traced pre sys \<Longrightarrow> traced (pre @ evs) (fst (run sys evs))"
proof (induction evs arbitrary: pre sys)
  case Nil
  then show ?case by simp
next
  case (Cons e es)
  from Cons.prems have "traced (pre @ [e]) (fst (step sys e))"
    by (rule traced_step)
  from Cons.IH [OF this] show ?case
    by (auto split: prod.splits)
qed

text \<open>
  Claim C5, as amended. In every state the process reaches from its start, the host and
  the guest of every session in the session table are the sender and the target of a
  \<^verbatim>\<open>game_invite\<close> frame that the target has accepted. \<^verbatim>\<open>handleGameInvite\<close> does not
  compare the target of an invite with its sender, so the two may be the same user; the
  host of a session differs from its guest unless that user has sent a \<^verbatim>\<open>game_invite\<close>
  frame that names the user as its own target.
\<close>

theorem session_parties_from_accepted_invite:
  assumes "activeGames (core (fst (run boot evs))) gameId = Some g"
  shows "(\<exists>name inviteId now.
            Invite_msg (hostId g) name (guestId g) inviteId now \<in> set evs
            \<and> Accept_msg (guestId g) inviteId \<in> set evs)
         \<and> ((\<forall>name inviteId now. Invite_msg (hostId g) name (hostId g) inviteId now \<notin> set evs)
              \<longrightarrow> hostId g \<noteq> guestId g)"
proof -
  from traced_run [OF traced_boot, of evs] assms
  have origin: "\<exists>name inviteId now.
            Invite_msg (hostId g) name (guestId g) inviteId now \<in> set evs
            \<and> Accept_msg (guestId g) inviteId \<in> set evs"
    by (simp add: traced_def)
  then show ?thesis by metis
qed

theorem session_parties_from_accepted_invite_witness:
  "(\<exists>name inviteId now. Invite_msg 1 name 2 inviteId now \<in> set mixed_evs
                         \<and> Accept_msg 2 inviteId \<in> set mixed_evs)
   \<and> Invite_msg 9 ''zed'' 9 ''i9'' 6 \<in> set mixed_evs
   \<and> hostId \<lparr>id_game = ''g1'', hostId = 1, guestId = 2, dbGameId = Some 7\<rparr>
       \<noteq> guestId \<lparr>id_game = ''g1'', hostId = 1, guestId = 2, dbGameId = Some 7\<rparr>"
proof -
  let ?g = "\<lparr>id_game = ''g1'', hostId = 1, guestId = 2, dbGameId = Some 7\<rparr>"
  have session: "activeGames (core (fst (run boot mixed_evs))) ''g1'' = Some ?g"
    by (simp add: mixed_evs_def example_defs model_defs)
  have host_no_self: "\<forall>name inviteId now. Invite_msg (hostId ?g) name (hostId ?g) inviteId now
                        \<notin> set mixed_evs"
    by (simp add: mixed_evs_def example_defs)
  have other_self: "Invite_msg 9 ''zed'' 9 ''i9'' 6 \<in> set mixed_evs"
    by (simp add: mixed_evs_def)
  from session_parties_from_accepted_invite [OF session] host_no_self other_self
  show ?thesis by simp
qed

text \<open>
  The claim as it was stated fails: user 1 connects, invites user 1 and accepts the
  invite; the session that is stored has user 1 as host and as guest.
\<close>

theorem self_invite_session_counterexample:
  "activeGames (core (fst (run boot self_evs))) ''g1'' =
     Some \<lparr>id_game = ''g1'', hostId = 1, guestId = 1, dbGameId = Some 7\<rparr>"
  by (simp add: self_evs_def model_defs)

end
